theory Spec2Isabelle
  imports Complex_Main "HOL-Library.Sublist"
begin

section \<open>Python values and string primitives\<close>

text \<open>
  The generators decode the upstream response with \<^verbatim>\<open>json.loads\<close> and hand the decoded
  values on as they are; the validator reads them back with \<^verbatim>\<open>json.load\<close>. A record is
  therefore an arbitrary decoded value, not a typed structure. A Python \<^verbatim>\<open>str\<close> is a
  \<^typ>\<open>string\<close> with one \<^typ>\<open>char\<close> per code point (code points below 256); a
  \<^verbatim>\<open>dict\<close> is an association list in insertion order with distinct keys.
\<close>

datatype pyfloat = Finite rat | NonFinite

datatype json =
    JNull
  | JBool bool
  | JInt int
  | JFloat pyfloat
  | JStr string
  | JList "json list"
  | JDict "(string \<times> json) list"

datatype py_error =
  TypeError | AttributeError | KeyError | JSONDecodeError | ZeroDivisionError | UnicodeEncodeError

text \<open>Python truthiness, as \<^verbatim>\<open>not faq[field]\<close> tests it.\<close>

fun truthy :: "json \<Rightarrow> bool" where
  "truthy JNull = False"
| "truthy (JBool b) = b"
| "truthy (JInt i) = (i \<noteq> 0)"
| "truthy (JFloat (Finite q)) = (q \<noteq> 0)"
| "truthy (JFloat NonFinite) = True"
| "truthy (JStr s) = (s \<noteq> [])"
| "truthy (JList xs) = (xs \<noteq> [])"
| "truthy (JDict kvs) = (kvs \<noteq> [])"

text \<open>\<^verbatim>\<open>str.isspace\<close> on the code points below 256.\<close>

definition py_isspace :: "char \<Rightarrow> bool" where
  "py_isspace c = (of_char c \<in> {9, 10, 11, 12, 13, 28, 29, 30, 31, 32, 133, 160 :: nat})"

definition py_strip :: "string \<Rightarrow> string" where
  "py_strip s = rev (dropWhile py_isspace (rev (dropWhile py_isspace s)))"

text \<open>\<^verbatim>\<open>str.lower\<close> on the code points below 256.\<close>

definition py_lower_char :: "char \<Rightarrow> char" where
  "py_lower_char c =
     (let n = (of_char c :: nat) in
      if (65 \<le> n \<and> n \<le> 90) \<or> (192 \<le> n \<and> n \<le> 222 \<and> n \<noteq> 215)
      then char_of (n + 32) else c)"

definition py_lower :: "string \<Rightarrow> string" where
  "py_lower s = map py_lower_char s"

text \<open>\<^verbatim>\<open>needle in hay\<close> for two strings: the substring test.\<close>

fun str_contains :: "string \<Rightarrow> string \<Rightarrow> bool" where
  "str_contains needle [] = (needle = [])"
| "str_contains needle (c # cs) = (prefix needle (c # cs) \<or> str_contains needle cs)"

text \<open>\<^verbatim>\<open>s.split(sep)\<close> for a non-empty separator; \<open>acc\<close> is the piece being read.\<close>

fun py_split :: "string \<Rightarrow> string \<Rightarrow> string \<Rightarrow> string list" where
  "py_split sep acc [] = [acc]"
| "py_split sep acc (c # cs) =
     (if sep \<noteq> [] \<and> prefix sep (c # cs)
      then acc # py_split sep [] (drop (length sep - 1) cs)
      else py_split sep (acc @ [c]) cs)"

text \<open>Decimal rendering of a non-negative integer, as an f-string prints it.\<close>

definition digit_char :: "nat \<Rightarrow> char" where
  "digit_char d = char_of (48 + d)"

function show_nat :: "nat \<Rightarrow> string" where
  "show_nat n = (if n < 10 then [digit_char n] else show_nat (n div 10) @ [digit_char (n mod 10)])"
  by pat_completeness auto
termination
  by (relation "measure id") auto

declare show_nat.simps [simp del]

section \<open>Dictionary and container operations\<close>

text \<open>\<^verbatim>\<open>field in faq\<close>: a key test on a dict, membership on a list, the substring test on a
  string, a \<^verbatim>\<open>TypeError\<close> on anything else.\<close>

fun py_in :: "string \<Rightarrow> json \<Rightarrow> py_error + bool" where
  "py_in k (JDict kvs) = Inr (k \<in> fst ` set kvs)"
| "py_in k (JList xs) = Inr (JStr k \<in> set xs)"
| "py_in k (JStr s) = Inr (str_contains k s)"
| "py_in k _ = Inl TypeError"

text \<open>\<^verbatim>\<open>faq[field]\<close> with a string subscript.\<close>

fun py_getitem :: "json \<Rightarrow> string \<Rightarrow> py_error + json" where
  "py_getitem (JDict kvs) k = (case map_of kvs k of None \<Rightarrow> Inl KeyError | Some v \<Rightarrow> Inr v)"
| "py_getitem _ k = Inl TypeError"

text \<open>\<^verbatim>\<open>d[k] = v\<close>: replaces the value in place, or appends a new key.\<close>

fun dict_set :: "string \<Rightarrow> json \<Rightarrow> (string \<times> json) list \<Rightarrow> (string \<times> json) list" where
  "dict_set k v [] = [(k, v)]"
| "dict_set k v (p # ps) = (if fst p = k then (k, v) # ps else p # dict_set k v ps)"

definition setdefault :: "string \<Rightarrow> json \<Rightarrow> (string \<times> json) list \<Rightarrow> (string \<times> json) list" where
  "setdefault k v kvs = (if k \<in> fst ` set kvs then kvs else kvs @ [(k, v)])"

text \<open>\<^verbatim>\<open>for faq in faqs\<close>: the elements of a list, the characters of a string, the keys of
  a dict; anything else is not iterable.\<close>

fun py_iter :: "json \<Rightarrow> py_error + json list" where
  "py_iter (JList xs) = Inr xs"
| "py_iter (JStr s) = Inr (map (\<lambda>c. JStr [c]) s)"
| "py_iter (JDict kvs) = Inr (map (\<lambda>p. JStr (fst p)) kvs)"
| "py_iter _ = Inl TypeError"

section \<open>RecordParser: \<^verbatim>\<open>BankingFAQGenerator._parse_response\<close>\<close>

text \<open>
  \<^verbatim>\<open>json.loads\<close> belongs to the Python standard library, not to this repository: the
  parser takes it as the parameter \<open>loads\<close>, which returns \<open>None\<close> where the library
  raises (\<^verbatim>\<open>JSONDecodeError\<close>). Every statement below holds for every decoder.
\<close>

definition fence :: string where
  "fence = [CHR 0x60, CHR 0x60, CHR 0x60]"

text \<open>The \<^verbatim>\<open>for part in parts\<close> loop: the text it assigns when it breaks, \<open>None\<close> when it
  runs to the end and leaves the text as it was.\<close>

fun pick_part :: "string list \<Rightarrow> string option" where
  "pick_part [] = None"
| "pick_part (p # ps) =
     (let part = py_strip p in
      if prefix ''json'' part then Some (py_strip (drop 4 part))
      else if prefix ''['' part \<or> prefix ''{'' part then Some part
      else pick_part ps)"

definition extract_payload :: "string \<Rightarrow> string" where
  "extract_payload text0 =
     (let text = py_strip text0 in
      if str_contains fence text
      then (case pick_part (py_split fence [] text) of None \<Rightarrow> text | Some t \<Rightarrow> t)
      else text)"

text \<open>The body of \<^verbatim>\<open>if 'question' in faq and 'answer' in faq\<close> on a dict.\<close>

definition clean_faq :: "string \<Rightarrow> (string \<times> json) list \<Rightarrow> (string \<times> json) list" where
  "clean_faq category kvs =
     setdefault ''subcategory'' (JStr category)
       (setdefault ''segment'' (JStr ''retail'')
         (setdefault ''difficulty'' (JStr ''basic'')
           (setdefault ''keywords'' (JList [])
             (dict_set ''category'' (JStr category) kvs))))"

text \<open>\<^verbatim>\<open>'question' in faq and 'answer' in faq\<close>, short-circuiting.\<close>

definition has_question_and_answer :: "json \<Rightarrow> py_error + bool" where
  "has_question_and_answer faq =
     (case py_in ''question'' faq of
        Inl e \<Rightarrow> Inl e
      | Inr False \<Rightarrow> Inr False
      | Inr True \<Rightarrow> py_in ''answer'' faq)"

text \<open>The cleaning loop; \<open>cleaned\<close> is \<^verbatim>\<open>cleaned_faqs\<close>. The item assignment
  \<^verbatim>\<open>faq['category'] = category\<close> raises \<^verbatim>\<open>TypeError\<close> on a list or a string.\<close>

fun clean_loop :: "string \<Rightarrow> json list \<Rightarrow> json list \<Rightarrow> py_error + json list" where
  "clean_loop category [] cleaned = Inr cleaned"
| "clean_loop category (faq # rest) cleaned =
     (case has_question_and_answer faq of
        Inl e \<Rightarrow> Inl e
      | Inr False \<Rightarrow> clean_loop category rest cleaned
      | Inr True \<Rightarrow>
          (case faq of
             JDict kvs \<Rightarrow> clean_loop category rest (cleaned @ [JDict (clean_faq category kvs)])
           | _ \<Rightarrow> Inl TypeError))"

text \<open>The \<^verbatim>\<open>try\<close> block.\<close>

definition parse_try :: "(string \<Rightarrow> json option) \<Rightarrow> string \<Rightarrow> string \<Rightarrow> py_error + json list" where
  "parse_try loads text category =
     (case loads (extract_payload text) of
        None \<Rightarrow> Inl JSONDecodeError
      | Some decoded \<Rightarrow>
          (case py_iter (case decoded of JDict kvs \<Rightarrow> JList [decoded] | _ \<Rightarrow> decoded) of
             Inl e \<Rightarrow> Inl e
           | Inr faqs \<Rightarrow> clean_loop category faqs []))"

text \<open>
  The two handlers print before they return. \<^verbatim>\<open>print\<close> encodes the line for
  \<^verbatim>\<open>sys.stdout\<close> and raises \<^verbatim>\<open>UnicodeEncodeError\<close> where the encoding of the stream has
  no code for a character of the line; an exception raised inside a handler is not caught
  by the other \<^verbatim>\<open>except\<close> clause and leaves the method. The three lines are
  \<^verbatim>\<open>f"\<dots> JSON parsing error: {e}"\<close> and \<^verbatim>\<open>f"\<dots> Unexpected error: {e}"\<close>, which both
  begin with the cross mark U+274C, and \<^verbatim>\<open>f"Response preview: {text[:200]}..."\<close>, which
  carries the first 200 characters of the payload.
\<close>

datatype printed_line =
    JsonParsingErrorLine
  | ResponsePreviewLine string
  | UnexpectedErrorLine py_error

text \<open>
  The standard output is the parameter \<open>stdout\<close>: \<open>stdout line\<close> holds where
  \<^verbatim>\<open>print\<close> writes the line and fails where it raises.
  The whole method: \<^verbatim>\<open>except json.JSONDecodeError\<close> prints two lines and returns the
  empty list, \<^verbatim>\<open>except Exception\<close> prints one line and returns the empty list. \<open>Inl\<close>
  is an exception leaving the method.
\<close>

definition parse_response ::
  "(printed_line \<Rightarrow> bool) \<Rightarrow> (string \<Rightarrow> json option) \<Rightarrow> string \<Rightarrow> string \<Rightarrow> py_error + json list" where
  "parse_response stdout loads text category =
     (case parse_try loads text category of
        Inl JSONDecodeError \<Rightarrow>
          if stdout JsonParsingErrorLine
          then (if stdout (ResponsePreviewLine (take 200 (extract_payload text))) then Inr []
                else Inl UnicodeEncodeError)
          else Inl UnicodeEncodeError
      | Inl e \<Rightarrow> if stdout (UnexpectedErrorLine e) then Inr [] else Inl UnicodeEncodeError
      | Inr cleaned_faqs \<Rightarrow> Inr cleaned_faqs)"

text \<open>A standard output with the UTF-8 encoding writes every line of the model's strings
  (code points below 256; a lone surrogate, which UTF-8 cannot encode, is not among them).\<close>

definition utf8_stdout :: "printed_line \<Rightarrow> bool" where
  "utf8_stdout line = True"


section \<open>RecordParser: \<^verbatim>\<open>BatchFAQGenerator._parse_response\<close>\<close>

text \<open>The lines before the \<^verbatim>\<open>try\<close>: \<^verbatim>\<open>text.split(fence)[1]\<close> would raise
  \<^verbatim>\<open>IndexError\<close> on a one-element split, outside any handler.\<close>

datatype batch_error = IndexError | Uncaught py_error

definition batch_extract_payload :: "string \<Rightarrow> batch_error + string" where
  "batch_extract_payload text0 =
     (let text = py_strip text0 in
      if str_contains fence text
      then (case py_split fence [] text of
              _ # second # _ \<Rightarrow>
                Inr (py_strip (if prefix ''json'' second then drop 4 second else second))
            | _ \<Rightarrow> Inl IndexError)
      else Inr (py_strip text))"

text \<open>\<^verbatim>\<open>for faq in faqs: faq['category'] = category\<close>.\<close>

fun batch_tag_loop :: "string \<Rightarrow> json list \<Rightarrow> py_error + json list" where
  "batch_tag_loop category [] = Inr []"
| "batch_tag_loop category (faq # rest) =
     (case faq of
        JDict kvs \<Rightarrow>
          (case batch_tag_loop category rest of
             Inl e \<Rightarrow> Inl e
           | Inr rest' \<Rightarrow> Inr (JDict (dict_set ''category'' (JStr category) kvs) # rest'))
      | _ \<Rightarrow> Inl TypeError)"

definition batch_parse_try :: "(string \<Rightarrow> json option) \<Rightarrow> string \<Rightarrow> string \<Rightarrow> py_error + json list" where
  "batch_parse_try loads payload category =
     (case loads payload of
        None \<Rightarrow> Inl JSONDecodeError
      | Some decoded \<Rightarrow>
          (case py_iter (case decoded of JDict kvs \<Rightarrow> JList [decoded] | _ \<Rightarrow> decoded) of
             Inl e \<Rightarrow> Inl e
           | Inr faqs \<Rightarrow> batch_tag_loop category faqs))"

text \<open>The bare \<^verbatim>\<open>except:\<close> returns the empty list. The method returns the decoded value
  itself; a decoded empty string, the only non-list it can return, is the empty sequence.\<close>

definition batch_parse_response ::
  "(string \<Rightarrow> json option) \<Rightarrow> string \<Rightarrow> string \<Rightarrow> batch_error + json list" where
  "batch_parse_response loads text category =
     (case batch_extract_payload text of
        Inl e \<Rightarrow> Inl e
      | Inr payload \<Rightarrow>
          (case batch_parse_try loads payload category of
             Inl _ \<Rightarrow> Inr []
           | Inr faqs \<Rightarrow> Inr faqs))"

section \<open>QualityValidator: \<^verbatim>\<open>FAQValidator\<close>\<close>

text \<open>The instance state: the two message lists and the four entries of \<^verbatim>\<open>self.stats\<close>.\<close>

record validator =
  errors :: "string list"
  warnings :: "string list"
  stats_total :: nat
  stats_valid :: nat
  stats_invalid :: nat
  stats_warnings :: nat

text \<open>\<^verbatim>\<open>__init__\<close>.\<close>

definition new_validator :: validator where
  "new_validator =
     \<lparr>errors = [], warnings = [], stats_total = 0, stats_valid = 0, stats_invalid = 0,
      stats_warnings = 0\<rparr>"

definition REQUIRED_FIELDS :: "string list" where
  "REQUIRED_FIELDS = [''question'', ''answer'', ''category'']"

definition VALID_DIFFICULTIES :: "string list" where
  "VALID_DIFFICULTIES = [''basic'', ''intermediate'', ''advanced'']"

definition VALID_SEGMENTS :: "string list" where
  "VALID_SEGMENTS = [''retail'', ''business'', ''wealth_management'']"

definition MIN_QUESTION_LENGTH :: nat where "MIN_QUESTION_LENGTH = 10"
definition MAX_QUESTION_LENGTH :: nat where "MAX_QUESTION_LENGTH = 500"
definition MIN_ANSWER_LENGTH :: nat where "MIN_ANSWER_LENGTH = 100"
definition MAX_ANSWER_LENGTH :: nat where "MAX_ANSWER_LENGTH = 2000"
definition MIN_KEYWORDS :: nat where "MIN_KEYWORDS = 1"
definition MAX_KEYWORDS :: nat where "MAX_KEYWORDS = 10"

text \<open>A method result: the value returned or the exception raised, and the state left behind
  (appends made before an exception stay).\<close>

type_synonym 'a outcome = "(py_error + 'a) \<times> validator"

definition and_then :: "'a outcome \<Rightarrow> ('a \<Rightarrow> validator \<Rightarrow> 'b outcome) \<Rightarrow> 'b outcome" where
  "and_then r f = (case r of (Inl e, v) \<Rightarrow> (Inl e, v) | (Inr x, v) \<Rightarrow> f x v)"

text \<open>The prefix every message carries: \<^verbatim>\<open>f"FAQ #{idx}: ..."\<close>.\<close>

definition faq_msg :: "nat \<Rightarrow> string \<Rightarrow> string" where
  "faq_msg idx body = ''FAQ #'' @ show_nat idx @ '': '' @ body"

definition add_error :: "string \<Rightarrow> validator \<Rightarrow> validator" where
  "add_error msg v = v\<lparr>errors := errors v @ [msg]\<rparr>"

text \<open>\<^verbatim>\<open>self.warnings.append(...)\<close> followed by \<^verbatim>\<open>self.stats['warnings'] += 1\<close>.\<close>

definition add_warning :: "string \<Rightarrow> validator \<Rightarrow> validator" where
  "add_warning msg v = v\<lparr>warnings := warnings v @ [msg], stats_warnings := stats_warnings v + 1\<rparr>"

text \<open>\<^verbatim>\<open>field not in faq or not faq[field]\<close>, short-circuiting.\<close>

definition field_missing :: "json \<Rightarrow> string \<Rightarrow> py_error + bool" where
  "field_missing faq field =
     (case py_in field faq of
        Inl e \<Rightarrow> Inl e
      | Inr False \<Rightarrow> Inr True
      | Inr True \<Rightarrow> (case py_getitem faq field of Inl e \<Rightarrow> Inl e | Inr x \<Rightarrow> Inr (\<not> truthy x)))"

text \<open>The loop over \<^verbatim>\<open>REQUIRED_FIELDS\<close>, threading \<^verbatim>\<open>is_valid\<close>.\<close>

fun check_required :: "json \<Rightarrow> nat \<Rightarrow> string list \<Rightarrow> bool \<Rightarrow> validator \<Rightarrow> bool outcome" where
  "check_required faq idx [] is_valid v = (Inr is_valid, v)"
| "check_required faq idx (field # remaining) is_valid v =
     (case field_missing faq field of
        Inl e \<Rightarrow> (Inl e, v)
      | Inr True \<Rightarrow>
          check_required faq idx remaining False
            (add_error (faq_msg idx (''Missing required field '' @ [CHR 0x27] @ field @ [CHR 0x27])) v)
      | Inr False \<Rightarrow> check_required faq idx remaining is_valid v)"

text \<open>\<^verbatim>\<open>faq[field].strip()\<close>: only a string has the method.\<close>

definition get_stripped :: "json \<Rightarrow> string \<Rightarrow> py_error + string" where
  "get_stripped faq field =
     (case py_getitem faq field of
        Inl e \<Rightarrow> Inl e
      | Inr (JStr s) \<Rightarrow> Inr (py_strip s)
      | Inr _ \<Rightarrow> Inl AttributeError)"

text \<open>Lines 103 to 115: the question's length and its question mark.\<close>

definition validate_question :: "json \<Rightarrow> nat \<Rightarrow> validator \<Rightarrow> string outcome" where
  "validate_question faq idx v =
     (case get_stripped faq ''question'' of
        Inl e \<Rightarrow> (Inl e, v)
      | Inr question \<Rightarrow>
          (let v1 =
                 (if length question < MIN_QUESTION_LENGTH
                  then add_warning (faq_msg idx (''Question too short ('' @ show_nat (length question) @ '' chars)'')) v
                  else if length question > MAX_QUESTION_LENGTH
                  then add_warning (faq_msg idx (''Question too long ('' @ show_nat (length question) @ '' chars)'')) v
                  else v);
               v2 =
                 (if \<not> suffix ''?'' question
                  then add_warning (faq_msg idx (''Question doesn'' @ [CHR 0x27] @ ''t end with '' @ [CHR 0x27] @ ''?'' @ [CHR 0x27])) v1
                  else v1)
           in (Inr question, v2)))"

text \<open>Lines 117 to 124: the answer's length.\<close>

definition validate_answer :: "json \<Rightarrow> nat \<Rightarrow> validator \<Rightarrow> string outcome" where
  "validate_answer faq idx v =
     (case get_stripped faq ''answer'' of
        Inl e \<Rightarrow> (Inl e, v)
      | Inr answer \<Rightarrow>
          (Inr answer,
           if length answer < MIN_ANSWER_LENGTH
           then add_warning (faq_msg idx (''Answer too short ('' @ show_nat (length answer) @ '' chars)'')) v
           else if length answer > MAX_ANSWER_LENGTH
           then add_warning (faq_msg idx (''Answer too long ('' @ show_nat (length answer) @ '' chars)'')) v
           else v))"

text \<open>Lines 126 to 137: the keywords, when the key is there.\<close>

definition validate_keywords :: "json \<Rightarrow> nat \<Rightarrow> bool \<Rightarrow> validator \<Rightarrow> bool outcome" where
  "validate_keywords faq idx is_valid v =
     (case py_in ''keywords'' faq of
        Inl e \<Rightarrow> (Inl e, v)
      | Inr False \<Rightarrow> (Inr is_valid, v)
      | Inr True \<Rightarrow>
          (case py_getitem faq ''keywords'' of
             Inl e \<Rightarrow> (Inl e, v)
           | Inr (JList keywords) \<Rightarrow>
               (Inr is_valid,
                if length keywords < MIN_KEYWORDS
                then add_warning (faq_msg idx (''Too few keywords ('' @ show_nat (length keywords) @ '')'')) v
                else if length keywords > MAX_KEYWORDS
                then add_warning (faq_msg idx (''Too many keywords ('' @ show_nat (length keywords) @ '')'')) v
                else v)
           | Inr _ \<Rightarrow> (Inr False, add_error (faq_msg idx ''Keywords must be a list'') v)))"

text \<open>
  The f-strings of the next two checks print the offending value. For a string that is the
  string itself; for any other value it is Python's built-in \<^verbatim>\<open>str\<close>, which the
  validator takes as the parameter \<open>str_builtin\<close>.
\<close>

definition py_format :: "(json \<Rightarrow> string) \<Rightarrow> json \<Rightarrow> string" where
  "py_format str_builtin x = (case x of JStr s \<Rightarrow> s | _ \<Rightarrow> str_builtin x)"

text \<open>Lines 139 to 149: an enumerated field, when the key is there. \<^verbatim>\<open>x not in VALID\<close>
  compares \<open>x\<close> with each string of the list.\<close>

definition validate_enumerated ::
  "(json \<Rightarrow> string) \<Rightarrow> string \<Rightarrow> string list \<Rightarrow> json \<Rightarrow> nat \<Rightarrow> bool \<Rightarrow> validator \<Rightarrow> bool outcome" where
  "validate_enumerated str_builtin field allowed faq idx is_valid v =
     (case py_in field faq of
        Inl e \<Rightarrow> (Inl e, v)
      | Inr False \<Rightarrow> (Inr is_valid, v)
      | Inr True \<Rightarrow>
          (case py_getitem faq field of
             Inl e \<Rightarrow> (Inl e, v)
           | Inr x \<Rightarrow>
               (if x \<notin> JStr ` set allowed
                then (Inr False,
                      add_error (faq_msg idx (''Invalid '' @ field @ '' '' @ [CHR 0x27] @ py_format str_builtin x @ [CHR 0x27])) v)
                else (Inr is_valid, v))))"

definition validate_difficulty ::
  "(json \<Rightarrow> string) \<Rightarrow> json \<Rightarrow> nat \<Rightarrow> bool \<Rightarrow> validator \<Rightarrow> bool outcome" where
  "validate_difficulty str_builtin = validate_enumerated str_builtin ''difficulty'' VALID_DIFFICULTIES"

definition validate_segment ::
  "(json \<Rightarrow> string) \<Rightarrow> json \<Rightarrow> nat \<Rightarrow> bool \<Rightarrow> validator \<Rightarrow> bool outcome" where
  "validate_segment str_builtin = validate_enumerated str_builtin ''segment'' VALID_SEGMENTS"

subsection \<open>\<^verbatim>\<open>_has_repetitive_content\<close>\<close>

definition is_terminal :: "char \<Rightarrow> bool" where
  "is_terminal c = (c = CHR ''.'' \<or> c = CHR ''!'' \<or> c = CHR ''?'')"

text \<open>\<^verbatim>\<open>re.split(r'[.!?]+', text)\<close>: the pieces between the maximal runs of terminal
  punctuation, empty pieces included; \<open>acc\<close> is the piece being read.\<close>

function re_split :: "string \<Rightarrow> string \<Rightarrow> string list" where
  "re_split acc [] = [acc]"
| "re_split acc (c # cs) =
     (if is_terminal c then acc # re_split [] (dropWhile is_terminal cs)
      else re_split (acc @ [c]) cs)"
  by pat_completeness auto
termination
  by (relation "measure (\<lambda>(acc, s). length s)") (auto simp: length_dropWhile_le less_Suc_eq_le)

text \<open>\<^verbatim>\<open>collections.Counter\<close>: the counts, by key, in order of first occurrence.\<close>

fun counter_add :: "string \<Rightarrow> (string \<times> nat) list \<Rightarrow> (string \<times> nat) list" where
  "counter_add k [] = [(k, 1)]"
| "counter_add k (p # ps) = (if fst p = k then (k, snd p + 1) # ps else p # counter_add k ps)"

definition Counter :: "string list \<Rightarrow> (string \<times> nat) list" where
  "Counter xs = foldl (\<lambda>counts k. counter_add k counts) [] xs"

text \<open>\<^verbatim>\<open>max(sentence_counts.values()) if sentence_counts else 0\<close>.\<close>

definition max_count_of :: "(string \<times> nat) list \<Rightarrow> nat" where
  "max_count_of sentence_counts =
     (case map snd sentence_counts of [] \<Rightarrow> 0 | n # ns \<Rightarrow> fold max ns n)"

text \<open>
  The source compares the double \<^verbatim>\<open>max_count / len(sentences)\<close> with the double
  \<^verbatim>\<open>0.3\<close>. The quotient of two integers is correctly rounded and \<^verbatim>\<open>0.3\<close> is the
  double nearest to 3/10, so for fewer than \<open>10^15\<close> pieces the comparison of the doubles
  and the comparison of the exact quotient with 3/10 agree; the model makes the exact one.
\<close>

definition has_repetitive_content :: "string \<Rightarrow> bool" where
  "has_repetitive_content text =
     (let sentences = re_split [] text in
      if length sentences < 3 then False
      else
        (let sentence_counts =
               Counter (map (\<lambda>s. py_lower (py_strip s)) (filter (\<lambda>s. py_strip s \<noteq> []) sentences));
             max_count = max_count_of sentence_counts
         in (of_nat max_count / of_nat (length sentences) :: rat) > 3 / 10))"

text \<open>Lines 151 to 154.\<close>

definition validate_repetition :: "nat \<Rightarrow> string \<Rightarrow> validator \<Rightarrow> validator" where
  "validate_repetition idx answer v =
     (if has_repetitive_content answer
      then add_warning (faq_msg idx ''Answer may have repetitive content'') v
      else v)"

subsection \<open>\<^verbatim>\<open>validate_single_faq\<close> and \<^verbatim>\<open>validate_faqs\<close>\<close>

definition validate_single_faq :: "(json \<Rightarrow> string) \<Rightarrow> json \<Rightarrow> nat \<Rightarrow> validator \<Rightarrow> bool outcome" where
  "validate_single_faq str_builtin faq idx v0 =
     and_then (check_required faq idx REQUIRED_FIELDS True v0) (\<lambda>is_valid v1.
       if \<not> is_valid then (Inr False, v1)
       else
         and_then (validate_question faq idx v1) (\<lambda>question v2.
         and_then (validate_answer faq idx v2) (\<lambda>answer v3.
         and_then (validate_keywords faq idx is_valid v3) (\<lambda>is_valid v4.
         and_then (validate_difficulty str_builtin faq idx is_valid v4) (\<lambda>is_valid v5.
         and_then (validate_segment str_builtin faq idx is_valid v5) (\<lambda>is_valid v6.
           (Inr is_valid, validate_repetition idx answer v6)))))))"

text \<open>The loop of \<^verbatim>\<open>validate_faqs\<close> over \<^verbatim>\<open>enumerate(faqs, 1)\<close>.\<close>

fun validate_loop :: "(json \<Rightarrow> string) \<Rightarrow> json list \<Rightarrow> nat \<Rightarrow> validator \<Rightarrow> unit outcome" where
  "validate_loop str_builtin [] idx v = (Inr (), v)"
| "validate_loop str_builtin (faq # rest) idx v =
     (case validate_single_faq str_builtin faq idx v of
        (Inl e, v') \<Rightarrow> (Inl e, v')
      | (Inr is_valid, v') \<Rightarrow>
          validate_loop str_builtin rest (idx + 1)
            (if is_valid then v'\<lparr>stats_valid := stats_valid v' + 1\<rparr>
             else v'\<lparr>stats_invalid := stats_invalid v' + 1\<rparr>))"

text \<open>\<^verbatim>\<open>validate_faqs\<close>; \<^verbatim>\<open>_print_results\<close> only prints.\<close>

definition validate_faqs :: "(json \<Rightarrow> string) \<Rightarrow> json list \<Rightarrow> validator \<Rightarrow> bool outcome" where
  "validate_faqs str_builtin faqs v =
     (case validate_loop str_builtin faqs 1 (v\<lparr>stats_total := length faqs\<rparr>) of
        (Inl e, v') \<Rightarrow> (Inl e, v')
      | (Inr _, v') \<Rightarrow> (Inr (stats_invalid v' = 0), v'))"

section \<open>BatchScheduler: \<^verbatim>\<open>BatchFAQGenerator.generate_category_batched\<close>\<close>

text \<open>
  The upstream model is the parameter \<open>upstream\<close>: given the four values the prompt
  interpolates (batch size, category, batch number, number of batches) it returns the
  response text, or \<open>None\<close> where \<^verbatim>\<open>generate_content\<close> raises.
\<close>

type_synonym upstream = "int \<Rightarrow> string \<Rightarrow> int \<Rightarrow> int \<Rightarrow> string option"

text \<open>\<^verbatim>\<open>generate_batch\<close>: \<^verbatim>\<open>except Exception\<close> covers the call and the parse.\<close>

definition generate_batch ::
  "upstream \<Rightarrow> (string \<Rightarrow> json option) \<Rightarrow> int \<Rightarrow> string \<Rightarrow> int \<Rightarrow> int \<Rightarrow> json list" where
  "generate_batch upstream loads batch_size category batch_num total_batches =
     (case upstream batch_size category batch_num total_batches of
        None \<Rightarrow> []
      | Some text \<Rightarrow>
          (case batch_parse_response loads text category of Inl e \<Rightarrow> [] | Inr faqs \<Rightarrow> faqs))"

text \<open>What one category's run leaves behind: the records, the calls of
  \<^verbatim>\<open>generate_batch\<close> as (category, batch number, number of batches) in the order they
  were made, and the arguments of \<^verbatim>\<open>time.sleep\<close>.\<close>

record batch_run =
  all_faqs :: "json list"
  calls :: "(string \<times> int \<times> int) list"
  sleeps :: "int list"

datatype sched_error = DivisionByZero | ValueError

text \<open>The body of \<^verbatim>\<open>for batch_num in range(1, num_batches + 1)\<close>; \<^verbatim>\<open>time.sleep\<close> raises
  \<^verbatim>\<open>ValueError\<close> on a negative delay.\<close>

fun batch_loop ::
  "upstream \<Rightarrow> (string \<Rightarrow> json option) \<Rightarrow> int \<Rightarrow> int \<Rightarrow> string \<Rightarrow> int \<Rightarrow> int list \<Rightarrow> batch_run
     \<Rightarrow> sched_error + batch_run" where
  "batch_loop upstream loads batch_size delay category num_batches [] run = Inr run"
| "batch_loop upstream loads batch_size delay category num_batches (batch_num # rest) run =
     (let faqs = generate_batch upstream loads batch_size category batch_num num_batches;
          run1 = run\<lparr>all_faqs := all_faqs run @ faqs,
                     calls := calls run @ [(category, batch_num, num_batches)]\<rparr>
      in if batch_num < num_batches
         then (if delay < 0 then Inl ValueError
               else batch_loop upstream loads batch_size delay category num_batches rest
                      (run1\<lparr>sleeps := sleeps run1 @ [delay]\<rparr>))
         else batch_loop upstream loads batch_size delay category num_batches rest run1)"

definition generate_category_batched ::
  "upstream \<Rightarrow> (string \<Rightarrow> json option) \<Rightarrow> int \<Rightarrow> int \<Rightarrow> string \<Rightarrow> int \<Rightarrow> sched_error + batch_run" where
  "generate_category_batched upstream loads batch_size delay category total_count =
     (if batch_size = 0 then Inl DivisionByZero
      else
        (let num_batches = (total_count + batch_size - 1) div batch_size in
         batch_loop upstream loads batch_size delay category num_batches [1..num_batches]
           \<lparr>all_faqs = [], calls = [], sleeps = []\<rparr>))"

section \<open>The specification's wording\<close>

text \<open>Non-empty, as the specification uses it of a field: present and truthy.\<close>

definition nonempty_field :: "(string \<times> json) list \<Rightarrow> string \<Rightarrow> bool" where
  "nonempty_field kvs k = (case map_of kvs k of None \<Rightarrow> False | Some x \<Rightarrow> truthy x)"





section \<open>Notions used in the statements\<close>

text \<open>An element the cleaning loop keeps: an object with both keys.\<close>

definition has_both_keys :: "json \<Rightarrow> bool" where
  "has_both_keys e =
     (case e of JDict kvs \<Rightarrow> ''question'' \<in> fst ` set kvs \<and> ''answer'' \<in> fst ` set kvs | _ \<Rightarrow> False)"

text \<open>What the loop appends for a kept object.\<close>

definition cleaned :: "string \<Rightarrow> json \<Rightarrow> json" where
  "cleaned category e = (case e of JDict kvs \<Rightarrow> JDict (clean_faq category kvs) | _ \<Rightarrow> e)"

fun is_dict :: "json \<Rightarrow> bool" where
  "is_dict (JDict kvs) = True"
| "is_dict _ = False"

subsection \<open>Example responses and what \<^verbatim>\<open>json.loads\<close> returns for them\<close>

definition demo_response :: string where
  \<open>demo_response = ''[{"question": "What is APR?", "answer": "A yearly rate.", "category": "Other", "difficulty": "advanced"}]''\<close>

definition demo_decoded :: json where
  "demo_decoded =
     JList [JDict [(''question'', JStr ''What is APR?''), (''answer'', JStr ''A yearly rate.''),
                   (''category'', JStr ''Other''), (''difficulty'', JStr ''advanced'')]]"





text \<open>A well-formed array whose question contains the fence delimiter.\<close>

definition fenced_string_response :: string where
  \<open>fenced_string_response = ''[{"question": "What is '' @ fence @ ''?", "answer": "A fence."}]''\<close>

definition fenced_string_decoded :: json where
  "fenced_string_decoded =
     JList [JDict [(''question'', JStr (''What is '' @ fence @ ''?'')), (''answer'', JStr ''A fence.'')]]"

subsection \<open>What each check of the validator contributes\<close>

text \<open>Appending several messages at once.\<close>

definition add_errors :: "string list \<Rightarrow> validator \<Rightarrow> validator" where
  "add_errors es v = v\<lparr>errors := errors v @ es\<rparr>"

definition add_warnings :: "string list \<Rightarrow> validator \<Rightarrow> validator" where
  "add_warnings ws v = v\<lparr>warnings := warnings v @ ws, stats_warnings := stats_warnings v + length ws\<rparr>"

text \<open>The messages of each check, as a function of the field it reads and of nothing else.\<close>

definition required_errors :: "nat \<Rightarrow> (string \<times> json) list \<Rightarrow> string list" where
  "required_errors idx kvs =
     map (\<lambda>field. faq_msg idx (''Missing required field '' @ [CHR 0x27] @ field @ [CHR 0x27]))
       (filter (\<lambda>field. \<not> nonempty_field kvs field) REQUIRED_FIELDS)"

definition keywords_errors :: "nat \<Rightarrow> (string \<times> json) list \<Rightarrow> string list" where
  "keywords_errors idx kvs =
     (case map_of kvs ''keywords'' of
        None \<Rightarrow> []
      | Some (JList ks) \<Rightarrow> []
      | Some _ \<Rightarrow> [faq_msg idx ''Keywords must be a list''])"

definition enumerated_errors ::
  "(json \<Rightarrow> string) \<Rightarrow> string \<Rightarrow> string list \<Rightarrow> nat \<Rightarrow> (string \<times> json) list \<Rightarrow> string list" where
  "enumerated_errors str_builtin field allowed idx kvs =
     (case map_of kvs field of
        None \<Rightarrow> []
      | Some x \<Rightarrow>
          if x \<in> JStr ` set allowed then []
          else [faq_msg idx (''Invalid '' @ field @ '' '' @ [CHR 0x27] @ py_format str_builtin x @ [CHR 0x27])])"

definition question_warnings :: "nat \<Rightarrow> string \<Rightarrow> string list" where
  "question_warnings idx question =
     (if length question < MIN_QUESTION_LENGTH
      then [faq_msg idx (''Question too short ('' @ show_nat (length question) @ '' chars)'')]
      else if length question > MAX_QUESTION_LENGTH
      then [faq_msg idx (''Question too long ('' @ show_nat (length question) @ '' chars)'')]
      else []) @
     (if suffix ''?'' question then []
      else [faq_msg idx (''Question doesn'' @ [CHR 0x27] @ ''t end with '' @ [CHR 0x27] @ ''?'' @ [CHR 0x27])])"

definition answer_warnings :: "nat \<Rightarrow> string \<Rightarrow> string list" where
  "answer_warnings idx answer =
     (if length answer < MIN_ANSWER_LENGTH
      then [faq_msg idx (''Answer too short ('' @ show_nat (length answer) @ '' chars)'')]
      else if length answer > MAX_ANSWER_LENGTH
      then [faq_msg idx (''Answer too long ('' @ show_nat (length answer) @ '' chars)'')]
      else [])"

definition keywords_warnings :: "nat \<Rightarrow> (string \<times> json) list \<Rightarrow> string list" where
  "keywords_warnings idx kvs =
     (case map_of kvs ''keywords'' of
        Some (JList ks) \<Rightarrow>
          if length ks < MIN_KEYWORDS
          then [faq_msg idx (''Too few keywords ('' @ show_nat (length ks) @ '')'')]
          else if length ks > MAX_KEYWORDS
          then [faq_msg idx (''Too many keywords ('' @ show_nat (length ks) @ '')'')]
          else []
      | _ \<Rightarrow> [])"

definition repetition_warnings :: "nat \<Rightarrow> string \<Rightarrow> string list" where
  "repetition_warnings idx answer =
     (if has_repetitive_content answer then [faq_msg idx ''Answer may have repetitive content''] else [])"


text \<open>A validator state with the report \<open>d\<close> of a later run added: the messages of \<open>d\<close>
  after its own, the counters summed. \<^verbatim>\<open>stats['total']\<close> is the one entry a run assigns.\<close>

definition absorb :: "validator \<Rightarrow> validator \<Rightarrow> validator" where
  "absorb v d =
     \<lparr>errors = errors v @ errors d, warnings = warnings v @ warnings d,
      stats_total = stats_total v,
      stats_valid = stats_valid v + stats_valid d,
      stats_invalid = stats_invalid v + stats_invalid d,
      stats_warnings = stats_warnings v + stats_warnings d\<rparr>"

text \<open>A method whose effect on the state is to add a report that does not depend on the
  state it starts from.\<close>

definition framed :: "(validator \<Rightarrow> 'a outcome) \<Rightarrow> bool" where
  "framed f = (\<exists>r d. \<forall>v. f v = (r, absorb v d))"


subsection \<open>Example records and answers\<close>


text \<open>The record of the specification's scenario, for an answer \<open>a\<close>.\<close>

definition scenario_record :: "string \<Rightarrow> json" where
  "scenario_record a =
     JDict [(''question'', JStr ''What is APR?''), (''answer'', JStr a),
            (''difficulty'', JStr ''extreme''), (''category'', JStr ''Loans'')]"

text \<open>A record that is valid and draws one warning (its answer has 14 characters).\<close>

definition short_record :: json where
  "short_record =
     JDict [(''question'', JStr ''What is APR?''), (''answer'', JStr ''A yearly rate.''),
            (''category'', JStr ''Loans'')]"

text \<open>A record with no question, a short answer, keywords that are not a list and a
  difficulty outside the enumerated set.\<close>

definition incomplete_record :: json where
  "incomplete_record =
     JDict [(''answer'', JStr ''A yearly rate.''), (''category'', JStr ''Loans''),
            (''keywords'', JStr ''apr''), (''difficulty'', JStr ''extreme'')]"

text \<open>A response whose question is a number.\<close>

definition numeric_response :: string where
  \<open>numeric_response = ''[{"question": 42, "answer": "A yearly rate."}]''\<close>

definition numeric_decoded :: json where
  "numeric_decoded = JList [JDict [(''question'', JInt 42), (''answer'', JStr ''A yearly rate.'')]]"

definition numeric_record :: json where
  "numeric_record =
     JDict [(''question'', JInt 42), (''answer'', JStr ''A yearly rate.''), (''category'', JStr ''Loans''),
            (''keywords'', JList []), (''difficulty'', JStr ''basic''),
            (''segment'', JStr ''retail''), (''subcategory'', JStr ''Loans'')]"







section \<open>RecordParser: lemmas and claims\<close>

lemma map_of_dict_set: "map_of (dict_set k v kvs) k' = (if k' = k then Some v else map_of kvs k')"
  by (induction kvs) auto


lemma map_of_setdefault:
  "map_of (setdefault k v kvs) k' =
     (if k' = k then (case map_of kvs k of None \<Rightarrow> Some v | Some w \<Rightarrow> Some w) else map_of kvs k')"
proof (cases "k \<in> fst ` set kvs")
  case True
  then obtain w where "map_of kvs k = Some w"
    by (cases "map_of kvs k") (auto simp: map_of_eq_None_iff)
  with True show ?thesis by (simp add: setdefault_def)
next
  case False
  then have "map_of kvs k = None" by (simp add: map_of_eq_None_iff)
  with False show ?thesis by (simp add: setdefault_def map_add_def split: option.splits)
qed


lemma map_of_clean_faq:
  "map_of (clean_faq c kvs) k =
     (if k = ''category'' then Some (JStr c)
      else if k = ''subcategory'' then (case map_of kvs k of None \<Rightarrow> Some (JStr c) | Some w \<Rightarrow> Some w)
      else if k = ''segment'' then (case map_of kvs k of None \<Rightarrow> Some (JStr ''retail'') | Some w \<Rightarrow> Some w)
      else if k = ''difficulty'' then (case map_of kvs k of None \<Rightarrow> Some (JStr ''basic'') | Some w \<Rightarrow> Some w)
      else if k = ''keywords'' then (case map_of kvs k of None \<Rightarrow> Some (JList []) | Some w \<Rightarrow> Some w)
      else map_of kvs k)"
  by (simp add: clean_faq_def map_of_setdefault map_of_dict_set)


lemma hqa_dict: "has_question_and_answer (JDict kvs) = Inr (has_both_keys (JDict kvs))"
  by (simp add: has_question_and_answer_def has_both_keys_def split: bool.splits)

lemma clean_loop_dicts:
  "list_all is_dict elems \<Longrightarrow>
   clean_loop c elems acc = Inr (acc @ map (cleaned c) (filter has_both_keys elems))"
proof (induction elems arbitrary: acc)
  case Nil
  then show ?case by simp
next
  case (Cons e elems)
  then obtain kvs where e: "e = JDict kvs" by (cases e) auto
  show ?case using Cons by (simp add: e hqa_dict cleaned_def)
qed


text \<open>When every line can be written, no exception leaves the method.\<close>

lemma parse_response_returns:
  "stdout JsonParsingErrorLine \<Longrightarrow>
   stdout (ResponsePreviewLine (take 200 (extract_payload text))) \<Longrightarrow>
   (\<And>e. stdout (UnexpectedErrorLine e)) \<Longrightarrow>
   \<exists>records. parse_response stdout loads text c = Inr records"
  by (simp add: parse_response_def split: sum.splits py_error.splits)

lemma parse_response_undecodable:
  "loads (extract_payload text) = None \<Longrightarrow>
   parse_response stdout loads text c =
     (if stdout JsonParsingErrorLine \<and> stdout (ResponsePreviewLine (take 200 (extract_payload text)))
      then Inr [] else Inl UnicodeEncodeError)"
  by (simp add: parse_response_def parse_try_def)


lemma py_split_nonempty: "1 \<le> length (py_split sep acc s)"
  by (induction sep acc s rule: py_split.induct) auto

lemma py_split_length:
  "sep \<noteq> [] \<Longrightarrow> str_contains sep s \<Longrightarrow> 2 \<le> length (py_split sep acc s)"
proof (induction s arbitrary: acc)
  case Nil
  then show ?case by simp
next
  case (Cons c cs)
  show ?case
  proof (cases "prefix sep (c # cs)")
    case True
    have "1 \<le> length (py_split sep [] (drop (length sep - 1) cs))"
      by (rule py_split_nonempty)
    with True Cons.prems(1) show ?thesis by simp
  next
    case False
    with Cons show ?thesis by simp
  qed
qed

lemma batch_extract_total: "\<exists>payload. batch_extract_payload text = Inr payload"
proof (cases "str_contains fence (py_strip text)")
  case True
  have "fence \<noteq> []" by (simp add: fence_def)
  from py_split_length[OF this True, of "[]"]
  obtain a b rest where "py_split fence [] (py_strip text) = a # b # rest"
    by (cases "py_split fence [] (py_strip text)"; cases "tl (py_split fence [] (py_strip text))") auto
  with True show ?thesis by (simp add: batch_extract_payload_def Let_def)
next
  case False
  then show ?thesis by (simp add: batch_extract_payload_def Let_def)
qed

lemma batch_parse_total: "\<exists>records. batch_parse_response loads text c = Inr records"
proof -
  obtain payload where "batch_extract_payload text = Inr payload"
    using batch_extract_total by blast
  then show ?thesis by (simp add: batch_parse_response_def split: sum.splits)
qed

lemma nonempty_field_key: "nonempty_field kvs k \<Longrightarrow> k \<in> fst ` set kvs"
  by (auto simp: nonempty_field_def split: option.splits dest!: map_of_SomeD intro: rev_image_eqI)

lemma extract_demo: "extract_payload demo_response = demo_response"
  by (simp add: extract_payload_def py_strip_def py_isspace_def fence_def demo_response_def)



lemma extract_without_fence:
  "\<not> str_contains fence (py_strip text) \<Longrightarrow> extract_payload text = py_strip text"
  by (simp add: extract_payload_def)

lemma extract_fenced_string:
  \<open>extract_payload fenced_string_response = ''[{"question": "What is''\<close>
  by (simp add: extract_payload_def py_strip_def py_isspace_def fence_def fenced_string_response_def)






text \<open>
  Claim C5, as the code has it. The parser decodes the payload it extracts, not the
  response: the response stripped of surrounding whitespace when it contains no fence
  delimiter, and otherwise the fragment between fences that the parser selects. When the
  response contains no fence delimiter and is an array, or more generally when the payload
  decodes to an array, and the elements are objects with non-empty \<^verbatim>\<open>question\<close> and
  \<^verbatim>\<open>answer\<close>, the parser returns one record per element, in order. In each record
  \<^verbatim>\<open>category\<close> is the caller's category, whatever the element said; \<^verbatim>\<open>subcategory\<close> is
  the element's, or the caller's category when absent; \<^verbatim>\<open>keywords\<close>, \<^verbatim>\<open>difficulty\<close> and
  \<^verbatim>\<open>segment\<close> are the element's, or the empty list, \<^verbatim>\<open>basic\<close> and \<^verbatim>\<open>retail\<close> when
  absent; question and answer are unchanged.
\<close>

theorem parse_one_record_per_object:
  assumes dec: "loads (extract_payload text) = Some (JList elems) \<or>
                (\<not> str_contains fence (py_strip text) \<and> loads (py_strip text) = Some (JList elems))"
      and objs: "\<forall>e \<in> set elems. \<exists>kvs. e = JDict kvs \<and> nonempty_field kvs ''question'' \<and> nonempty_field kvs ''answer''"
  shows "\<exists>records. parse_response stdout loads text category = Inr records \<and>
           length records = length elems \<and>
           (\<forall>i < length elems. \<exists>kvs kvs'.
              elems ! i = JDict kvs \<and> records ! i = JDict kvs' \<and>
              map_of kvs' ''category'' = Some (JStr category) \<and>
              map_of kvs' ''subcategory'' =
                (case map_of kvs ''subcategory'' of None \<Rightarrow> Some (JStr category) | Some x \<Rightarrow> Some x) \<and>
              map_of kvs' ''keywords'' =
                (case map_of kvs ''keywords'' of None \<Rightarrow> Some (JList []) | Some x \<Rightarrow> Some x) \<and>
              map_of kvs' ''difficulty'' =
                (case map_of kvs ''difficulty'' of None \<Rightarrow> Some (JStr ''basic'') | Some x \<Rightarrow> Some x) \<and>
              map_of kvs' ''segment'' =
                (case map_of kvs ''segment'' of None \<Rightarrow> Some (JStr ''retail'') | Some x \<Rightarrow> Some x) \<and>
              map_of kvs' ''question'' = map_of kvs ''question'' \<and>
              map_of kvs' ''answer'' = map_of kvs ''answer'')"
proof -
  from dec have payload: "loads (extract_payload text) = Some (JList elems)"
    by (auto simp: extract_without_fence)
  have dicts: "list_all is_dict elems"
    using objs by (auto simp: list_all_iff)
  have "has_both_keys e" if "e \<in> set elems" for e
  proof -
    from that objs obtain kvs where "e = JDict kvs" "nonempty_field kvs ''question''" "nonempty_field kvs ''answer''"
      by blast
    then show ?thesis
      by (simp add: has_both_keys_def nonempty_field_key)
  qed
  then have both: "filter has_both_keys elems = elems"
    by (simp add: filter_True)
  have loop: "clean_loop category elems [] = Inr (map (cleaned category) elems)"
    using clean_loop_dicts[OF dicts, of category "[]"] both by simp
  have res: "parse_response stdout loads text category = Inr (map (cleaned category) elems)"
    by (simp add: parse_response_def parse_try_def payload loop)
  have "\<exists>kvs kvs'. elems ! i = JDict kvs \<and> map (cleaned category) elems ! i = JDict kvs' \<and>
              map_of kvs' ''category'' = Some (JStr category) \<and>
              map_of kvs' ''subcategory'' =
                (case map_of kvs ''subcategory'' of None \<Rightarrow> Some (JStr category) | Some x \<Rightarrow> Some x) \<and>
              map_of kvs' ''keywords'' =
                (case map_of kvs ''keywords'' of None \<Rightarrow> Some (JList []) | Some x \<Rightarrow> Some x) \<and>
              map_of kvs' ''difficulty'' =
                (case map_of kvs ''difficulty'' of None \<Rightarrow> Some (JStr ''basic'') | Some x \<Rightarrow> Some x) \<and>
              map_of kvs' ''segment'' =
                (case map_of kvs ''segment'' of None \<Rightarrow> Some (JStr ''retail'') | Some x \<Rightarrow> Some x) \<and>
              map_of kvs' ''question'' = map_of kvs ''question'' \<and>
              map_of kvs' ''answer'' = map_of kvs ''answer''"
    if i: "i < length elems" for i
  proof -
    from i objs obtain kvs where e: "elems ! i = JDict kvs"
      using nth_mem by blast
    have "map (cleaned category) elems ! i = JDict (clean_faq category kvs)"
      using i e by (simp add: cleaned_def)
    then show ?thesis using e by (simp add: map_of_clean_faq)
  qed
  with res show ?thesis by simp
qed

text \<open>The theorem at a one-object response without a fence that declares its own category.\<close>

theorem parse_one_record_per_object_witness:
  "\<not> str_contains fence (py_strip demo_response) \<and>
   parse_response utf8_stdout (\<lambda>s. if s = demo_response then Some demo_decoded else None)
       demo_response ''Loans'' =
     Inr [JDict [(''question'', JStr ''What is APR?''), (''answer'', JStr ''A yearly rate.''),
       (''category'', JStr ''Loans''), (''difficulty'', JStr ''advanced''), (''keywords'', JList []),
       (''segment'', JStr ''retail''), (''subcategory'', JStr ''Loans'')]]"
proof -
  let ?loads = "\<lambda>s. if s = demo_response then Some demo_decoded else None"
  let ?kvs = "[(''question'', JStr ''What is APR?''), (''answer'', JStr ''A yearly rate.''),
       (''category'', JStr ''Other''), (''difficulty'', JStr ''advanced'')]"
  have strip: "py_strip demo_response = demo_response"
    by (simp add: py_strip_def py_isspace_def demo_response_def)
  have nofence: "\<not> str_contains fence (py_strip demo_response)"
    unfolding strip by (simp add: fence_def demo_response_def)
  have dec: "?loads (extract_payload demo_response) = Some (JList [JDict ?kvs]) \<or>
      (\<not> str_contains fence (py_strip demo_response) \<and>
       ?loads (py_strip demo_response) = Some (JList [JDict ?kvs]))"
    using nofence by (simp add: strip demo_decoded_def)
  have objs: "\<forall>e \<in> set [JDict ?kvs]. \<exists>kvs. e = JDict kvs \<and> nonempty_field kvs ''question'' \<and> nonempty_field kvs ''answer''"
    by (simp add: nonempty_field_def)
  from parse_one_record_per_object[of ?loads demo_response "[JDict ?kvs]" utf8_stdout "''Loans''", OF dec objs]
  obtain records where r: "parse_response utf8_stdout ?loads demo_response ''Loans'' = Inr records"
    by blast
  have "parse_response utf8_stdout ?loads demo_response ''Loans'' =
     Inr [JDict [(''question'', JStr ''What is APR?''), (''answer'', JStr ''A yearly rate.''),
       (''category'', JStr ''Loans''), (''difficulty'', JStr ''advanced''), (''keywords'', JList []),
       (''segment'', JStr ''retail''), (''subcategory'', JStr ''Loans'')]]"
    by (simp add: parse_response_def parse_try_def extract_demo demo_decoded_def
        has_question_and_answer_def clean_faq_def setdefault_def)
  with r nofence show ?thesis by simp
qed

text \<open>
  Claim C5 as stated fails. The response
  \<^verbatim>\<open>[{"question": "What is ```?", "answer": "A fence."}]\<close> is a well-formed array of one
  object with a non-empty question and answer, and \<^verbatim>\<open>json.loads\<close> decodes it. The parser
  splits it at the fence inside the question, hands the decoder the fragment before it,
  which does not decode, and returns no record.
\<close>

theorem fence_inside_a_string_empties_the_result:
  \<open>extract_payload fenced_string_response = ''[{"question": "What is'' \<and>
   parse_response utf8_stdout
       (\<lambda>s. if s = fenced_string_response then Some fenced_string_decoded else None)
       fenced_string_response ''Loans'' = Inr []\<close>
proof -
  have ne: \<open>''[{"question": "What is'' \<noteq> fenced_string_response\<close>
    by (simp add: fenced_string_response_def)
  show ?thesis
    by (simp add: extract_fenced_string parse_response_undecodable ne utf8_stdout_def)
qed
section \<open>BatchScheduler: lemmas and claims\<close>

lemma ceil_div_int:
  fixes t b :: int
  assumes "0 < b"
  shows "- ((- t) div b) = (t + b - 1) div b"
proof -
  define q r where "q = t div b" and "r = t mod b"
  have t: "t = q * b + r" and r: "0 \<le> r" "r < b"
    using assms by (simp_all add: q_def r_def)
  have lhs: "(- t) div b = (if r = 0 then - q else - q - 1)"
    using assms by (simp add: zdiv_zminus1_eq_if q_def r_def)
  show ?thesis
  proof (cases "r = 0")
    case True
    have "(t + b - 1) div b = (q * b + (b - 1)) div b" using t True by (simp add: algebra_simps)
    also have "\<dots> = q + (b - 1) div b" using assms by (simp add: div_mult_self3)
    also have "(b - 1) div b = 0" using assms by (simp add: div_pos_pos_trivial)
    finally show ?thesis using lhs True by simp
  next
    case False
    have "(t + b - 1) div b = ((q + 1) * b + (r - 1)) div b" using t by (simp add: algebra_simps)
    also have "\<dots> = (q + 1) + (r - 1) div b" using assms by (simp only: div_mult_self3) 
    also have "(r - 1) div b = 0" using assms r False by (simp add: div_pos_pos_trivial)
    finally show ?thesis using lhs False by simp
  qed
qed

lemma ceil_div:
  fixes t b :: int
  assumes "0 < b"
  shows "(t + b - 1) div b = \<lceil>(of_int t / of_int b :: rat)\<rceil>"
  using ceil_div_int[OF assms, of t] by (simp add: ceiling_divide_eq_div)

lemma batch_loop_calls:
  "0 \<le> delay \<Longrightarrow>
   \<exists>run'. batch_loop upstream loads bs delay c n xs run = Inr run' \<and>
          calls run' = calls run @ map (\<lambda>i. (c, i, n)) xs"
proof (induction xs arbitrary: run)
  case Nil
  then show ?case by simp
next
  case (Cons i xs)
  let ?run1 = "run\<lparr>all_faqs := all_faqs run @ generate_batch upstream loads bs c i n,
                     calls := calls run @ [(c, i, n)]\<rparr>"
  show ?case
  proof (cases "i < n")
    case True
    from Cons.IH[OF Cons.prems, of "?run1\<lparr>sleeps := sleeps ?run1 @ [delay]\<rparr>"]
    show ?thesis using True Cons.prems by (simp add: Let_def)
  next
    case False
    from Cons.IH[OF Cons.prems, of ?run1]
    show ?thesis using False by (simp add: Let_def)
  qed
qed

lemma sorted_upto_lt: "sorted_wrt (<) [i..j]"
  by (simp add: strict_sorted_iff)

text \<open>
  Claim C4. For a batch size of at least 1 (and a delay that \<^verbatim>\<open>time.sleep\<close> accepts),
  \<^verbatim>\<open>generate_category_batched\<close> returns normally, and its calls of \<^verbatim>\<open>generate_batch\<close>
  are, in this order, the batch numbers 1 to \<open>\<lceil>total_count / batch_size\<rceil>\<close>, each with that
  ceiling as the number of batches. So the number of calls is the ceiling (none when the
  ceiling is not positive, which needs a negative count), every call has
  \<open>1 \<le> batch_num \<le> total_batches\<close>, and the batch numbers increase strictly. For 25
  records in batches of 10 the calls are (1, 3), (2, 3), (3, 3).
\<close>

theorem scheduler_calls:
  assumes bs: "1 \<le> batch_size" and delay: "0 \<le> delay"
  shows "\<exists>run.
      generate_category_batched upstream loads batch_size delay category total_count = Inr run \<and>
      calls run =
        map (\<lambda>i. (category, i, \<lceil>(of_int total_count / of_int batch_size :: rat)\<rceil>))
          [1..\<lceil>(of_int total_count / of_int batch_size :: rat)\<rceil>] \<and>
      int (length (calls run)) = max 0 \<lceil>(of_int total_count / of_int batch_size :: rat)\<rceil> \<and>
      (0 \<le> total_count \<longrightarrow>
         int (length (calls run)) = \<lceil>(of_int total_count / of_int batch_size :: rat)\<rceil>) \<and>
      (\<forall>call \<in> set (calls run).
         snd (snd call) = \<lceil>(of_int total_count / of_int batch_size :: rat)\<rceil> \<and>
         1 \<le> fst (snd call) \<and> fst (snd call) \<le> snd (snd call)) \<and>
      sorted_wrt (<) (map (\<lambda>call. fst (snd call)) (calls run)) \<and>
      (total_count = 25 \<and> batch_size = 10 \<longrightarrow>
         map snd (calls run) = [(1, 3), (2, 3), (3, 3)])"
proof -
  define n where "n = \<lceil>(of_int total_count / of_int batch_size :: rat)\<rceil>"
  have pos: "0 < batch_size" using bs by simp
  have nb: "(total_count + batch_size - 1) div batch_size = n"
    unfolding n_def by (rule ceil_div[OF pos])
  from batch_loop_calls[OF delay, of upstream loads batch_size category n "[1..n]"
      "\<lparr>all_faqs = [], calls = [], sleeps = []\<rparr>"]
  obtain run where run: "batch_loop upstream loads batch_size delay category n [1..n]
        \<lparr>all_faqs = [], calls = [], sleeps = []\<rparr> = Inr run"
    and cs: "calls run = map (\<lambda>i. (category, i, n)) [1..n]"
    by auto
  have res: "generate_category_batched upstream loads batch_size delay category total_count = Inr run"
    using pos run by (simp add: generate_category_batched_def nb)
  have len: "int (length (calls run)) = max 0 n"
    by (simp add: cs)
  have nonneg: "0 \<le> n" if "0 \<le> total_count"
    unfolding nb[symmetric] using that pos by (simp add: pos_imp_zdiv_nonneg_iff)
  have each: "\<forall>call \<in> set (calls run). snd (snd call) = n \<and> 1 \<le> fst (snd call) \<and> fst (snd call) \<le> snd (snd call)"
    by (auto simp: cs)
  have "map (\<lambda>call. fst (snd call)) (calls run) = [1..n]"
    by (simp add: cs comp_def)
  then have incr: "sorted_wrt (<) (map (\<lambda>call. fst (snd call)) (calls run))"
    by (simp add: sorted_upto_lt)
  have scen: "map snd (calls run) = [(1, 3), (2, 3), (3, 3)]" if "total_count = 25 \<and> batch_size = 10"
  proof -
    have "n = 3" unfolding nb[symmetric] using that by simp
    then show ?thesis by (simp add: cs upto_rec1)
  qed
  show ?thesis
    unfolding n_def[symmetric] using res cs len nonneg each incr scen by auto
qed

text \<open>The theorem at 25 records in batches of 10 with a delay of 2 seconds.\<close>

theorem scheduler_calls_witness:
  "\<exists>run. generate_category_batched (\<lambda>bs c i n. None) (\<lambda>s. None) 10 2 ''Loans'' 25 = Inr run \<and>
     calls run = [(''Loans'', 1, 3), (''Loans'', 2, 3), (''Loans'', 3, 3)] \<and>
     length (calls run) = 3"
proof -
  have a: "(1::int) \<le> 10" and b: "(0::int) \<le> 2" by simp_all
  have c: "\<lceil>(of_int 25 / of_int 10 :: rat)\<rceil> = 3"
    using ceil_div[of 10 25] by simp
  from scheduler_calls[OF a b, of "\<lambda>bs c i n. None" "\<lambda>s. None" "''Loans''" 25]
  show ?thesis unfolding c by (auto simp: upto_rec1)
qed

section \<open>QualityValidator: lemmas and claims\<close>

subsection \<open>The checks on a record that is an object\<close>

lemma py_in_dict: "py_in k (JDict kvs) = Inr (map_of kvs k \<noteq> None)"
  by (simp add: map_of_eq_None_iff)

lemma field_missing_dict: "field_missing (JDict kvs) f = Inr (\<not> nonempty_field kvs f)"
  by (cases "map_of kvs f")
    (simp_all add: field_missing_def nonempty_field_def py_in_dict del: py_in.simps)

lemma add_errors_Nil [simp]: "add_errors [] v = v"
  by (simp add: add_errors_def)

lemma add_warnings_Nil [simp]: "add_warnings [] v = v"
  by (simp add: add_warnings_def)

lemma add_error_eq: "add_error m v = add_errors [m] v"
  by (simp add: add_error_def add_errors_def)

lemma add_warning_eq: "add_warning m v = add_warnings [m] v"
  by (simp add: add_warning_def add_warnings_def)

lemma add_errors_append: "add_errors es' (add_errors es v) = add_errors (es @ es') v"
  by (simp add: add_errors_def)

lemma add_warnings_append: "add_warnings ws' (add_warnings ws v) = add_warnings (ws @ ws') v"
  by (simp add: add_warnings_def)

lemma add_errors_warnings: "add_errors es (add_warnings ws v) = add_warnings ws (add_errors es v)"
  by (simp add: add_errors_def add_warnings_def)

lemma check_required_dict:
  "check_required (JDict kvs) idx fs b v =
     (Inr (b \<and> list_all (nonempty_field kvs) fs),
      add_errors (map (\<lambda>field. faq_msg idx (''Missing required field '' @ [CHR 0x27] @ field @ [CHR 0x27]))
                   (filter (\<lambda>field. \<not> nonempty_field kvs field) fs)) v)"
proof (induction fs arbitrary: b v)
  case Nil
  then show ?case by simp
next
  case (Cons f fs)
  show ?case
  proof (cases "nonempty_field kvs f")
    case True
    then show ?thesis by (simp add: field_missing_dict Cons.IH)
  next
    case False
    then show ?thesis
      by (simp add: field_missing_dict Cons.IH add_error_eq add_errors_append)
  qed
qed

lemma get_stripped_str: "map_of kvs f = Some (JStr s) \<Longrightarrow> get_stripped (JDict kvs) f = Inr (py_strip s)"
  by (simp add: get_stripped_def)

lemma validate_question_dict:
  "map_of kvs ''question'' = Some (JStr q) \<Longrightarrow>
   validate_question (JDict kvs) idx v = (Inr (py_strip q), add_warnings (question_warnings idx (py_strip q)) v)"
  by (simp add: validate_question_def get_stripped_str question_warnings_def Let_def
      add_warning_eq add_warnings_append)

lemma validate_answer_dict:
  "map_of kvs ''answer'' = Some (JStr a) \<Longrightarrow>
   validate_answer (JDict kvs) idx v = (Inr (py_strip a), add_warnings (answer_warnings idx (py_strip a)) v)"
  by (simp add: validate_answer_def get_stripped_str answer_warnings_def add_warning_eq)

lemma validate_keywords_dict:
  "validate_keywords (JDict kvs) idx b v =
     (Inr (b \<and> keywords_errors idx kvs = []),
      add_warnings (keywords_warnings idx kvs) (add_errors (keywords_errors idx kvs) v))"
proof (cases "map_of kvs ''keywords''")
  case None
  then show ?thesis
    by (simp add: validate_keywords_def py_in_dict keywords_errors_def keywords_warnings_def del: py_in.simps)
next
  case (Some x)
  then show ?thesis
    by (cases x)
      (simp_all add: validate_keywords_def py_in_dict keywords_errors_def keywords_warnings_def
        add_warning_eq add_error_eq del: py_in.simps)
qed

lemma validate_enumerated_dict:
  "validate_enumerated str field allowed (JDict kvs) idx b v =
     (Inr (b \<and> enumerated_errors str field allowed idx kvs = []),
      add_errors (enumerated_errors str field allowed idx kvs) v)"
proof (cases "map_of kvs field")
  case None
  then show ?thesis
    by (simp add: validate_enumerated_def py_in_dict enumerated_errors_def del: py_in.simps)
next
  case (Some x)
  then show ?thesis
    by (simp add: validate_enumerated_def py_in_dict enumerated_errors_def add_error_eq del: py_in.simps)
qed

lemma validate_repetition_eq:
  "validate_repetition idx a v = add_warnings (repetition_warnings idx a) v"
  by (simp add: validate_repetition_def repetition_warnings_def add_warning_eq)

lemma and_then_Inr [simp]: "and_then (Inr x, v) f = f x v"
  by (simp add: and_then_def)

lemma and_then_Inl [simp]: "and_then (Inl e, v) f = (Inl e, v)"
  by (simp add: and_then_def)

text \<open>A record with a missing or empty required field: the three fields are all tested,
  and the method returns at once.\<close>

lemma validate_single_missing:
  "\<not> list_all (nonempty_field kvs) REQUIRED_FIELDS \<Longrightarrow>
   validate_single_faq str (JDict kvs) idx v = (Inr False, add_errors (required_errors idx kvs) v)"
  by (simp add: validate_single_faq_def check_required_dict required_errors_def)

text \<open>A record whose required fields are there, with a string question and answer: every
  later check runs and adds its own messages.\<close>

lemma validate_single_complete:
  assumes req: "list_all (nonempty_field kvs) REQUIRED_FIELDS"
      and q: "map_of kvs ''question'' = Some (JStr q)"
      and a: "map_of kvs ''answer'' = Some (JStr a)"
  shows "validate_single_faq str (JDict kvs) idx v =
     (Inr (keywords_errors idx kvs = [] \<and>
           enumerated_errors str ''difficulty'' VALID_DIFFICULTIES idx kvs = [] \<and>
           enumerated_errors str ''segment'' VALID_SEGMENTS idx kvs = []),
      add_warnings
        (question_warnings idx (py_strip q) @ answer_warnings idx (py_strip a) @
         keywords_warnings idx kvs @ repetition_warnings idx (py_strip a))
        (add_errors
           (keywords_errors idx kvs @
            enumerated_errors str ''difficulty'' VALID_DIFFICULTIES idx kvs @
            enumerated_errors str ''segment'' VALID_SEGMENTS idx kvs) v))"
proof -
  have none: "filter (\<lambda>field. \<not> nonempty_field kvs field) REQUIRED_FIELDS = []"
    using req by (simp add: list_all_iff filter_empty_conv)
  show ?thesis
    unfolding validate_single_faq_def check_required_dict none validate_difficulty_def validate_segment_def
    by (simp add: req validate_question_dict[OF q] validate_answer_dict[OF a]
        validate_keywords_dict validate_enumerated_dict validate_repetition_eq
        add_errors_append add_warnings_append add_errors_warnings)
qed

subsection \<open>A run adds a report that does not depend on the state\<close>

lemma absorb_assoc: "absorb (absorb v d1) d2 = absorb v (absorb d1 d2)"
  by (simp add: absorb_def)

lemma absorb_new [simp]: "absorb v new_validator = v"
  by (simp add: absorb_def new_validator_def)

lemma add_error_absorb: "add_error m v = absorb v (new_validator\<lparr>errors := [m]\<rparr>)"
  by (simp add: add_error_def absorb_def new_validator_def)

lemma add_warning_absorb:
  "add_warning m v = absorb v (new_validator\<lparr>warnings := [m], stats_warnings := 1\<rparr>)"
  by (simp add: add_warning_def absorb_def new_validator_def)

lemma framedI: "(\<And>v. f v = (r, absorb v d)) \<Longrightarrow> framed f"
  unfolding framed_def by blast

lemma framed_return: "framed (\<lambda>v. (r, v))"
  by (rule framedI[where d = new_validator]) simp

lemma framed_pre:
  assumes "framed f"
  shows "framed (\<lambda>v. f (absorb v d))"
proof -
  from assms obtain r d' where f: "\<And>v. f v = (r, absorb v d')"
    unfolding framed_def by blast
  show ?thesis
    by (rule framedI[where r = r and d = "absorb d d'"]) (simp add: f absorb_assoc)
qed

lemma framed_add_error: "framed f \<Longrightarrow> framed (\<lambda>v. f (add_error m v))"
  unfolding add_error_absorb by (rule framed_pre)

lemma framed_if: "framed f \<Longrightarrow> framed g \<Longrightarrow> framed (\<lambda>v. if b then f v else g v)"
  by (cases b) simp_all

lemma framed_and_then:
  assumes f: "framed f" and g: "\<And>x. framed (g x)"
  shows "framed (\<lambda>v. and_then (f v) g)"
proof -
  from f obtain r d where fv: "\<And>v. f v = (r, absorb v d)"
    unfolding framed_def by blast
  show ?thesis
  proof (cases r)
    case (Inl e)
    show ?thesis
      by (rule framedI[where r = "Inl e" and d = d]) (simp add: fv Inl and_then_def)
  next
    case (Inr x)
    have "framed (\<lambda>v. g x (absorb v d))" by (rule framed_pre[OF g])
    moreover have "(\<lambda>v. and_then (f v) g) = (\<lambda>v. g x (absorb v d))"
      by (simp add: fv Inr and_then_def)
    ultimately show ?thesis by simp
  qed
qed

lemma framed_check_required: "framed (check_required faq idx fs b)"
proof (induction fs arbitrary: b)
  case Nil
  have "check_required faq idx [] b = (\<lambda>v. (Inr b, v))" by (rule ext) simp
  then show ?case by (simp add: framed_return)
next
  case (Cons f fs)
  show ?case
  proof (cases "field_missing faq f")
    case (Inl e)
    then have "check_required faq idx (f # fs) b = (\<lambda>v. (Inl e, v))" by (intro ext) simp
    then show ?thesis by (simp add: framed_return)
  next
    case (Inr m)
    show ?thesis
    proof (cases m)
      case True
      have "check_required faq idx (f # fs) b =
        (\<lambda>v. check_required faq idx fs False
           (add_error (faq_msg idx (''Missing required field '' @ [CHR 0x27] @ f @ [CHR 0x27])) v))"
        using Inr True by (intro ext) simp
      then show ?thesis using framed_add_error[OF Cons.IH[of False]] by simp
    next
      case False
      have "check_required faq idx (f # fs) b = check_required faq idx fs b"
        using Inr False by (intro ext) simp
      then show ?thesis using Cons.IH[of b] by simp
    qed
  qed
qed


lemma add_warnings_absorb:
  "add_warnings ws v = absorb v (new_validator\<lparr>warnings := ws, stats_warnings := length ws\<rparr>)"
  by (simp add: add_warnings_def absorb_def new_validator_def)

lemma add_errors_absorb: "add_errors es v = absorb v (new_validator\<lparr>errors := es\<rparr>)"
  by (simp add: add_errors_def absorb_def new_validator_def)

lemma framed_messages: "framed (\<lambda>v. (r, add_warnings ws (add_errors es v)))"
  unfolding add_warnings_absorb add_errors_absorb absorb_assoc by (rule framedI) simp

lemma framed_eq: "framed g \<Longrightarrow> (\<And>v. f v = g v) \<Longrightarrow> framed f"
  by (simp add: framed_def)

lemma validate_question_any:
  "get_stripped faq ''question'' = Inr q \<Longrightarrow>
   validate_question faq idx v = (Inr q, add_warnings (question_warnings idx q) v)"
  by (simp add: validate_question_def question_warnings_def Let_def add_warning_eq add_warnings_append)

lemma validate_answer_any:
  "get_stripped faq ''answer'' = Inr a \<Longrightarrow>
   validate_answer faq idx v = (Inr a, add_warnings (answer_warnings idx a) v)"
  by (simp add: validate_answer_def answer_warnings_def add_warning_eq)

lemma framed_validate_question: "framed (validate_question faq idx)"
proof (cases "get_stripped faq ''question''")
  case (Inl e)
  show ?thesis
    by (rule framed_eq[OF framed_return[of "Inl e"]]) (simp add: validate_question_def Inl)
next
  case (Inr q)
  show ?thesis
    by (rule framed_eq[OF framed_messages[of "Inr q" "question_warnings idx q" "[]"]])
      (simp add: validate_question_any[OF Inr])
qed

lemma framed_validate_answer: "framed (validate_answer faq idx)"
proof (cases "get_stripped faq ''answer''")
  case (Inl e)
  show ?thesis
    by (rule framed_eq[OF framed_return[of "Inl e"]]) (simp add: validate_answer_def Inl)
next
  case (Inr a)
  show ?thesis
    by (rule framed_eq[OF framed_messages[of "Inr a" "answer_warnings idx a" "[]"]])
      (simp add: validate_answer_any[OF Inr])
qed

text \<open>On a value that is not an object the later checks add no message.\<close>

lemma py_in_getitem_nondict:
  "\<not> is_dict faq \<Longrightarrow> py_in k faq = Inl TypeError \<or> py_in k faq = Inr False \<or>
     (py_in k faq = Inr True \<and> py_getitem faq k = Inl TypeError)"
  by (cases faq) auto

lemma framed_validate_keywords: "framed (validate_keywords faq idx b)"
proof (cases "is_dict faq")
  case True
  then obtain kvs where faq: "faq = JDict kvs" by (cases faq) auto
  show ?thesis
    unfolding faq
    by (rule framed_eq[OF framed_messages]) (rule validate_keywords_dict)
next
  case False
  from py_in_getitem_nondict[OF False, of "''keywords''"]
  consider "py_in ''keywords'' faq = Inl TypeError" | "py_in ''keywords'' faq = Inr False"
    | "py_in ''keywords'' faq = Inr True" "py_getitem faq ''keywords'' = Inl TypeError"
    by blast
  then show ?thesis
  proof cases
    case 1
    show ?thesis
      by (rule framed_eq[OF framed_return[of "Inl TypeError"]]) (simp add: validate_keywords_def 1)
  next
    case 2
    show ?thesis
      by (rule framed_eq[OF framed_return[of "Inr b"]]) (simp add: validate_keywords_def 2)
  next
    case 3
    show ?thesis
      by (rule framed_eq[OF framed_return[of "Inl TypeError"]]) (simp add: validate_keywords_def 3)
  qed
qed

lemma framed_validate_enumerated: "framed (validate_enumerated str field allowed faq idx b)"
proof (cases "is_dict faq")
  case True
  then obtain kvs where faq: "faq = JDict kvs" by (cases faq) auto
  show ?thesis
    unfolding faq
    by (rule framed_eq[OF framed_messages[of _ "[]"]]) (simp add: validate_enumerated_dict)
next
  case False
  from py_in_getitem_nondict[OF False, of field]
  consider "py_in field faq = Inl TypeError" | "py_in field faq = Inr False"
    | "py_in field faq = Inr True" "py_getitem faq field = Inl TypeError"
    by blast
  then show ?thesis
  proof cases
    case 1
    show ?thesis
      by (rule framed_eq[OF framed_return[of "Inl TypeError"]]) (simp add: validate_enumerated_def 1)
  next
    case 2
    show ?thesis
      by (rule framed_eq[OF framed_return[of "Inr b"]]) (simp add: validate_enumerated_def 2)
  next
    case 3
    show ?thesis
      by (rule framed_eq[OF framed_return[of "Inl TypeError"]]) (simp add: validate_enumerated_def 3)
  qed
qed

lemma framed_validate_repetition: "framed (\<lambda>v. (r, validate_repetition idx a v))"
  by (rule framed_eq[OF framed_messages[of r "repetition_warnings idx a" "[]"]])
    (simp add: validate_repetition_eq)

lemma framed_validate_single_faq: "framed (validate_single_faq str faq idx)"
proof -
  have "framed (\<lambda>v0. and_then (check_required faq idx REQUIRED_FIELDS True v0) (\<lambda>is_valid v1.
       if \<not> is_valid then (Inr False, v1)
       else
         and_then (validate_question faq idx v1) (\<lambda>question v2.
         and_then (validate_answer faq idx v2) (\<lambda>answer v3.
         and_then (validate_keywords faq idx is_valid v3) (\<lambda>is_valid v4.
         and_then (validate_difficulty str faq idx is_valid v4) (\<lambda>is_valid v5.
         and_then (validate_segment str faq idx is_valid v5) (\<lambda>is_valid v6.
           (Inr is_valid, validate_repetition idx answer v6))))))))"
    unfolding validate_difficulty_def validate_segment_def
    by (intro framed_and_then framed_if framed_check_required framed_return
        framed_validate_question framed_validate_answer framed_validate_keywords
        framed_validate_enumerated framed_validate_repetition)
  then show ?thesis
    by (rule framed_eq) (simp add: validate_single_faq_def)
qed

lemma framed_validate_loop: "framed (validate_loop str faqs idx)"
proof (induction faqs arbitrary: idx)
  case Nil
  show ?case by (rule framed_eq[OF framed_return[of "Inr ()"]]) simp
next
  case (Cons faq faqs)
  from framed_validate_single_faq[of str faq idx]
  obtain r d where single: "\<And>v. validate_single_faq str faq idx v = (r, absorb v d)"
    unfolding framed_def by blast
  show ?case
  proof (cases r)
    case (Inl e)
    show ?thesis
      by (rule framedI[where r = "Inl e" and d = d]) (simp add: single Inl)
  next
    case (Inr is_valid)
    let ?d' = "if is_valid then d\<lparr>stats_valid := stats_valid d + 1\<rparr>
               else d\<lparr>stats_invalid := stats_invalid d + 1\<rparr>"
    have "framed (\<lambda>v. validate_loop str faqs (idx + 1) (absorb v ?d'))"
      by (rule framed_pre[OF Cons.IH])
    then show ?thesis
      by (rule framed_eq) (simp add: single Inr absorb_def)
  qed
qed

subsection \<open>The counts of \<^verbatim>\<open>Counter\<close> and their maximum\<close>











subsection \<open>Running the validator again\<close>

lemma validate_faqs_frame:
  "\<exists>(r :: py_error + unit) d. \<forall>v. validate_faqs str faqs v =
      (case r of Inl e \<Rightarrow> Inl e | Inr u \<Rightarrow> Inr (stats_invalid v + stats_invalid d = 0),
       absorb (v\<lparr>stats_total := length faqs\<rparr>) d)"
proof -
  from framed_validate_loop[of str faqs "Suc 0"]
  obtain r d where loop: "\<And>v. validate_loop str faqs (Suc 0) v = (r, absorb v d)"
    unfolding framed_def by blast
  have "validate_faqs str faqs v =
      (case r of Inl e \<Rightarrow> Inl e | Inr u \<Rightarrow> Inr (stats_invalid v + stats_invalid d = 0),
       absorb (v\<lparr>stats_total := length faqs\<rparr>) d)" for v
    by (cases r) (simp_all add: validate_faqs_def loop absorb_def)
  then show ?thesis by blast
qed

text \<open>
  Claim C8, as the code has it. What a run of \<^verbatim>\<open>validate_faqs\<close> adds to the validator is a
  function of the record sequence alone: started from any state \<open>v\<close>, it appends to the
  errors and warnings of \<open>v\<close> exactly the errors and warnings of a run on a new validator,
  adds that run's valid, invalid and warning counts to those of \<open>v\<close>, and assigns the total.
  So two runs, each on a new validator, give the same report; a second run on the validator
  of the first gives every message twice and doubled counts, with the total unchanged.
\<close>

theorem revalidation_adds_the_report_again:
  assumes fresh: "validate_faqs str faqs new_validator = (r1, v1)"
      and again: "validate_faqs str faqs v = (r, v')"
  shows "errors v' = errors v @ errors v1 \<and>
         warnings v' = warnings v @ warnings v1 \<and>
         stats_total v' = length faqs \<and>
         stats_valid v' = stats_valid v + stats_valid v1 \<and>
         stats_invalid v' = stats_invalid v + stats_invalid v1 \<and>
         stats_warnings v' = stats_warnings v + stats_warnings v1 \<and>
         r = (case r1 of Inl e \<Rightarrow> Inl e | Inr b \<Rightarrow> Inr (stats_invalid v + stats_invalid v1 = 0))"
proof -
  from validate_faqs_frame[of str faqs]
  obtain r0 :: "py_error + unit" and d where frame: "\<And>v. validate_faqs str faqs v =
      (case r0 of Inl e \<Rightarrow> Inl e | Inr u \<Rightarrow> Inr (stats_invalid v + stats_invalid d = 0),
       absorb (v\<lparr>stats_total := length faqs\<rparr>) d)"
    by blast
  from fresh frame[of new_validator]
  have v1: "v1 = absorb (new_validator\<lparr>stats_total := length faqs\<rparr>) d"
    and r1: "r1 = (case r0 of Inl e \<Rightarrow> Inl e | Inr u \<Rightarrow> Inr (stats_invalid new_validator + stats_invalid d = 0))"
    by simp_all
  from again frame[of v]
  have v': "v' = absorb (v\<lparr>stats_total := length faqs\<rparr>) d"
    and r: "r = (case r0 of Inl e \<Rightarrow> Inl e | Inr u \<Rightarrow> Inr (stats_invalid v + stats_invalid d = 0))"
    by simp_all
  show ?thesis
    unfolding v1 v' r r1 by (cases r0) (simp_all add: absorb_def new_validator_def)
qed

lemma short_first:
  "validate_faqs (\<lambda>x. []) [short_record] new_validator =
     (Inr True,
      \<lparr>errors = [], warnings = [''FAQ #1: Answer too short (14 chars)''],
       stats_total = 1, stats_valid = 1, stats_invalid = 0, stats_warnings = 1\<rparr>)"
  by code_simp

lemma short_second:
  "validate_faqs (\<lambda>x. []) [short_record]
     \<lparr>errors = [], warnings = [''FAQ #1: Answer too short (14 chars)''],
       stats_total = 1, stats_valid = 1, stats_invalid = 0, stats_warnings = 1\<rparr> =
     (Inr True,
      \<lparr>errors = [],
       warnings = [''FAQ #1: Answer too short (14 chars)'', ''FAQ #1: Answer too short (14 chars)''],
       stats_total = 1, stats_valid = 2, stats_invalid = 0, stats_warnings = 2\<rparr>)"
  by code_simp

text \<open>The theorem at one valid record with a short answer, validated twice by the same
  validator.\<close>

theorem revalidation_adds_the_report_again_witness:
  "validate_faqs (\<lambda>x. []) [short_record] new_validator =
     (Inr True,
      \<lparr>errors = [], warnings = [''FAQ #1: Answer too short (14 chars)''],
       stats_total = 1, stats_valid = 1, stats_invalid = 0, stats_warnings = 1\<rparr>) \<and>
   (\<exists>v'. validate_faqs (\<lambda>x. []) [short_record]
       \<lparr>errors = [], warnings = [''FAQ #1: Answer too short (14 chars)''],
        stats_total = 1, stats_valid = 1, stats_invalid = 0, stats_warnings = 1\<rparr> = (Inr True, v') \<and>
      warnings v' = [''FAQ #1: Answer too short (14 chars)'', ''FAQ #1: Answer too short (14 chars)''] \<and>
      stats_total v' = 1 \<and> stats_valid v' = 2 \<and> stats_invalid v' = 0 \<and> stats_warnings v' = 2)"
proof -
  let ?v1 = "\<lparr>errors = [], warnings = [''FAQ #1: Answer too short (14 chars)''],
       stats_total = 1, stats_valid = 1, stats_invalid = 0, stats_warnings = 1\<rparr>"
  have fresh: "validate_faqs (\<lambda>x. []) [short_record] new_validator = (Inr True, ?v1)"
    by (rule short_first)
  obtain r v' where again: "validate_faqs (\<lambda>x. []) [short_record] ?v1 = (r, v')"
    by (cases "validate_faqs (\<lambda>x. []) [short_record] ?v1")
  from revalidation_adds_the_report_again[OF fresh again]
  have "warnings v' = [''FAQ #1: Answer too short (14 chars)'', ''FAQ #1: Answer too short (14 chars)'']"
    and "stats_total v' = 1" and "stats_valid v' = 2" and "stats_invalid v' = 0"
    and "stats_warnings v' = 2" and "r = Inr True"
    by simp_all
  with fresh again show ?thesis by simp
qed

text \<open>
  Claim C8 as stated fails: the second run over the same one-record sequence, on the
  validator that has produced the first report, reports two warnings, two valid records
  and a total of one.
\<close>

theorem second_run_differs:
  "validate_faqs (\<lambda>x. []) [short_record] new_validator =
     (Inr True,
      \<lparr>errors = [], warnings = [''FAQ #1: Answer too short (14 chars)''],
       stats_total = 1, stats_valid = 1, stats_invalid = 0, stats_warnings = 1\<rparr>) \<and>
   validate_faqs (\<lambda>x. []) [short_record]
      \<lparr>errors = [], warnings = [''FAQ #1: Answer too short (14 chars)''],
       stats_total = 1, stats_valid = 1, stats_invalid = 0, stats_warnings = 1\<rparr> =
     (Inr True,
      \<lparr>errors = [],
       warnings = [''FAQ #1: Answer too short (14 chars)'', ''FAQ #1: Answer too short (14 chars)''],
       stats_total = 1, stats_valid = 2, stats_invalid = 0, stats_warnings = 2\<rparr>)"
  using short_first short_second by simp

text \<open>
  Claim C1, as the code has it. All three required fields are tested on every record and
  each missing or empty one is reported. When one of them is missing or empty,
  \<^verbatim>\<open>validate_single_faq\<close> returns \<open>False\<close> at once: no other structural check and no
  heuristic check runs. When all three are there (question and answer being strings), the
  keywords, difficulty and segment checks and every heuristic check run, each adding its own
  messages whatever the others found.
\<close>

theorem checks_after_required_fields:
  "(\<not> list_all (nonempty_field kvs) REQUIRED_FIELDS \<longrightarrow>
      validate_single_faq str (JDict kvs) idx v =
        (Inr False, add_errors (required_errors idx kvs) v)) \<and>
   (list_all (nonempty_field kvs) REQUIRED_FIELDS \<and>
    map_of kvs ''question'' = Some (JStr q) \<and> map_of kvs ''answer'' = Some (JStr a) \<longrightarrow>
      validate_single_faq str (JDict kvs) idx v =
        (Inr (keywords_errors idx kvs = [] \<and>
              enumerated_errors str ''difficulty'' VALID_DIFFICULTIES idx kvs = [] \<and>
              enumerated_errors str ''segment'' VALID_SEGMENTS idx kvs = []),
         add_warnings
           (question_warnings idx (py_strip q) @ answer_warnings idx (py_strip a) @
            keywords_warnings idx kvs @ repetition_warnings idx (py_strip a))
           (add_errors
              (keywords_errors idx kvs @
               enumerated_errors str ''difficulty'' VALID_DIFFICULTIES idx kvs @
               enumerated_errors str ''segment'' VALID_SEGMENTS idx kvs) v)))"
  using validate_single_missing[of kvs str idx v] validate_single_complete[of kvs q a str idx v]
  by blast

lemma incomplete_eval:
  "validate_single_faq (\<lambda>x. []) incomplete_record 1 new_validator =
     (Inr False,
      \<lparr>errors = [''FAQ #1: Missing required field '' @ [CHR 0x27] @ ''question'' @ [CHR 0x27]],
       warnings = [], stats_total = 0, stats_valid = 0, stats_invalid = 0, stats_warnings = 0\<rparr>)"
  by code_simp

lemma complete_eval:
  "validate_single_faq (\<lambda>x. []) (scenario_record ''A yearly rate.'') 1 new_validator =
     (Inr False,
      \<lparr>errors = [''FAQ #1: Invalid difficulty '' @ [CHR 0x27] @ ''extreme'' @ [CHR 0x27]],
       warnings = [''FAQ #1: Answer too short (14 chars)''],
       stats_total = 0, stats_valid = 0, stats_invalid = 0, stats_warnings = 1\<rparr>)"
  by code_simp

subsection \<open>Valid records and structural checks\<close>














subsection \<open>The answer-length boundary\<close>













subsection \<open>A question that is not a string\<close>

lemma numeric_single:
  "validate_single_faq str numeric_record idx v = (Inl AttributeError, v)"
proof -
  let ?kvs = "[(''question'', JInt 42), (''answer'', JStr ''A yearly rate.''), (''category'', JStr ''Loans''),
            (''keywords'', JList []), (''difficulty'', JStr ''basic''),
            (''segment'', JStr ''retail''), (''subcategory'', JStr ''Loans'')]"
  have req: "list_all (nonempty_field ?kvs) REQUIRED_FIELDS"
    by (simp add: REQUIRED_FIELDS_def nonempty_field_def)
  have none: "filter (\<lambda>field. \<not> nonempty_field ?kvs field) REQUIRED_FIELDS = []"
    using req by (simp add: list_all_iff filter_empty_conv)
  have "validate_question (JDict ?kvs) idx v = (Inl AttributeError, v)"
    by (simp add: validate_question_def get_stripped_def)
  then show ?thesis
    unfolding numeric_record_def validate_single_faq_def check_required_dict none
    by (simp add: req)
qed

lemma extract_numeric: "extract_payload numeric_response = numeric_response"
  by (simp add: extract_payload_def py_strip_def py_isspace_def fence_def numeric_response_def)

text \<open>
  Claim C10. The parser accepts the response \<^verbatim>\<open>[{"question": 42, "answer": "A yearly rate."}]\<close>
  and returns its record; \<^verbatim>\<open>validate_faqs\<close> on any sequence that starts with this record
  raises \<^verbatim>\<open>AttributeError\<close> (the number has no \<^verbatim>\<open>strip\<close>) and produces no report,
  whatever records follow.
\<close>

theorem validate_raises_on_parsed_record:
  "(\<forall>stdout. parse_response stdout (\<lambda>s. if s = numeric_response then Some numeric_decoded else None)
       numeric_response ''Loans'' = Inr [numeric_record]) \<and>
   (\<forall>str rest. validate_faqs str (numeric_record # rest) new_validator =
      (Inl AttributeError, new_validator\<lparr>stats_total := Suc (length rest)\<rparr>))"
proof
  show "\<forall>stdout. parse_response stdout (\<lambda>s. if s = numeric_response then Some numeric_decoded else None)
       numeric_response ''Loans'' = Inr [numeric_record]"
    by (simp add: parse_response_def parse_try_def extract_numeric numeric_decoded_def
        has_question_and_answer_def clean_faq_def setdefault_def numeric_record_def)
  show "\<forall>str rest. validate_faqs str (numeric_record # rest) new_validator =
      (Inl AttributeError, new_validator\<lparr>stats_total := Suc (length rest)\<rparr>)"
    by (simp add: validate_faqs_def numeric_single)
qed

subsection \<open>The repetitive-content check\<close>










text \<open>
  Claim C1 as stated fails: a record without a question, whose keywords are not a list,
  whose difficulty is not in the enumerated set and whose answer has 14 characters, is
  reported with the missing question only.
\<close>

theorem missing_field_stops_the_checks:
  "validate_single_faq (\<lambda>x. []) incomplete_record 1 new_validator =
     (Inr False,
      \<lparr>errors = [''FAQ #1: Missing required field '' @ [CHR 0x27] @ ''question'' @ [CHR 0x27]],
       warnings = [], stats_total = 0, stats_valid = 0, stats_invalid = 0, stats_warnings = 0\<rparr>)"
  by (rule incomplete_eval)

text \<open>The theorem at a record without a question, and at a complete record with a wrong
  difficulty and a short answer.\<close>

theorem checks_after_required_fields_witness:
  "validate_single_faq (\<lambda>x. []) incomplete_record 1 new_validator =
     (Inr False,
      \<lparr>errors = [''FAQ #1: Missing required field '' @ [CHR 0x27] @ ''question'' @ [CHR 0x27]],
       warnings = [], stats_total = 0, stats_valid = 0, stats_invalid = 0, stats_warnings = 0\<rparr>) \<and>
   validate_single_faq (\<lambda>x. []) (scenario_record ''A yearly rate.'') 1 new_validator =
     (Inr False,
      \<lparr>errors = [''FAQ #1: Invalid difficulty '' @ [CHR 0x27] @ ''extreme'' @ [CHR 0x27]],
       warnings = [''FAQ #1: Answer too short (14 chars)''],
       stats_total = 0, stats_valid = 0, stats_invalid = 0, stats_warnings = 1\<rparr>)"
proof -
  let ?k1 = "[(''answer'', JStr ''A yearly rate.''), (''category'', JStr ''Loans''),
            (''keywords'', JStr ''apr''), (''difficulty'', JStr ''extreme'')]"
  let ?k2 = "[(''question'', JStr ''What is APR?''), (''answer'', JStr ''A yearly rate.''),
            (''difficulty'', JStr ''extreme''), (''category'', JStr ''Loans'')]"
  have h1: "\<not> list_all (nonempty_field ?k1) REQUIRED_FIELDS"
    by (simp add: REQUIRED_FIELDS_def nonempty_field_def)
  have h2: "list_all (nonempty_field ?k2) REQUIRED_FIELDS \<and>
      map_of ?k2 ''question'' = Some (JStr ''What is APR?'') \<and>
      map_of ?k2 ''answer'' = Some (JStr ''A yearly rate.'')"
    by (simp add: REQUIRED_FIELDS_def nonempty_field_def)
  from checks_after_required_fields[where kvs = ?k1 and str = "\<lambda>x. []" and idx = 1 and v = new_validator] h1
  have a: "validate_single_faq (\<lambda>x. []) (JDict ?k1) 1 new_validator =
        (Inr False, add_errors (required_errors 1 ?k1) new_validator)"
    by blast
  from checks_after_required_fields[where kvs = ?k2 and q = "''What is APR?''" and a = "''A yearly rate.''"
      and str = "\<lambda>x. []" and idx = 1 and v = new_validator] h2
  have b: "fst (validate_single_faq (\<lambda>x. []) (JDict ?k2) 1 new_validator) =
        Inr (keywords_errors 1 ?k2 = [] \<and>
              enumerated_errors (\<lambda>x. []) ''difficulty'' VALID_DIFFICULTIES 1 ?k2 = [] \<and>
              enumerated_errors (\<lambda>x. []) ''segment'' VALID_SEGMENTS 1 ?k2 = [])"
    by simp
  show ?thesis
    using a b incomplete_eval complete_eval by (simp add: incomplete_record_def scenario_record_def)
qed

end
